theory Spec2Isabelle
  imports Complex_Main
begin

section \<open>Phononic band gaps: a model of \<^verbatim>\<open>sfepy/homogenization/coefs_phononic.py\<close>\<close>

text \<open>
  The functions below follow the Python source function by function. Frequencies
  and traced eigenvalues are finite float64 numbers; they are idealised as reals
  (no rounding, no overflow). Where the code compares against a bound of the size
  of a rounding error (the volume check of \<^verbatim>\<open>DensityVolumeInfo\<close>), every float64
  operation is rounded to nearest, ties to even (\<open>round64\<close>). Index vectors are
  int64: differences of indices wrap around (\<open>wrap64\<close>). Only the mass tensor tests
  its numbers for finiteness, so its values carry the IEEE special values
  explicitly (type \<open>fl\<close>). Exceptions are values of type \<open>error\<close>; a function that can
  raise returns \<open>error + 'a\<close>, and a loop that need not end returns an option,
  \<open>None\<close> meaning that it never returns.
\<close>

datatype error =
    KeyError
  | IndexError
  | TypeError
  | UnboundLocalError
  | ZeroDivisionError
  | ConfigurationError
  | ValueError string

subsection \<open>Python indexing\<close>

text \<open>\<^verbatim>\<open>xs[i]\<close>: a negative index counts from the end; out of range raises.\<close>

definition py_get :: "'a list \<Rightarrow> int \<Rightarrow> error + 'a" where
  "py_get xs i =
     (if 0 \<le> i \<and> nat i < length xs then Inr (xs ! nat i)
      else if i < 0 \<and> nat (- i) \<le> length xs then Inr (xs ! (length xs - nat (- i)))
      else Inl IndexError)"

definition py_slice :: "'a list \<Rightarrow> nat \<Rightarrow> nat \<Rightarrow> 'a list" where
  "py_slice xs i j = take (j - i) (drop i xs)"


subsection \<open>\<^verbatim>\<open>split_chunks\<close>\<close>

text \<open>
  Index vectors are numpy arrays of int64. Their entries are integers here, and the
  subtraction of two of them wraps around as int64 arithmetic does.
\<close>

definition wrap64 :: "int \<Rightarrow> int" where
  "wrap64 x = (x + 2 ^ 63) mod 2 ^ 64 - 2 ^ 63"

text \<open>
  \<^verbatim>\<open>nm.ediff1d(indx, to_end=2)\<close>: the (wrapped) differences of neighbouring entries,
  then \<open>to_end\<close>.
\<close>

definition ediff1d :: "int list \<Rightarrow> int \<Rightarrow> int list" where
  "ediff1d ary to_end = map (\<lambda>(a, b). wrap64 (b - a)) (zip ary (tl ary)) @ [to_end]"

text \<open>\<^verbatim>\<open>nm.where(delta > 1)[0]\<close>: the positions whose entry exceeds 1, ascending.\<close>

definition where_gt1 :: "int list \<Rightarrow> nat list" where
  "where_gt1 delta = filter (\<lambda>i. delta ! i > 1) [0..<length delta]"

text \<open>The \<^verbatim>\<open>for ic in ir\<close> loop, with its variables \<open>ic0\<close> and \<open>chunks\<close>.\<close>

fun chunk_loop :: "int list \<Rightarrow> nat list \<Rightarrow> nat \<Rightarrow> int list list \<Rightarrow> int list list" where
  "chunk_loop indx [] ic0 chunks = chunks"
| "chunk_loop indx (ic # ir) ic0 chunks =
     chunk_loop indx ir (ic + 1) (chunks @ [py_slice indx ic0 (ic + 1)])"

definition split_chunks :: "int list \<Rightarrow> int list list" where
  "split_chunks indx =
     (if length indx = 0 then []
      else chunk_loop indx (where_gt1 (ediff1d indx 2)) 0 [])"

text \<open>
  Reference notions for the claims on \<open>split_chunks\<close>: the runs of a list by
  recursion on the list, what it means for a chunk to be a maximal run of
  consecutive integers of \<open>xs\<close>, and that the difference of any two neighbouring
  entries is an int64 number.
\<close>

definition diffs_fit :: "int list \<Rightarrow> bool" where
  "diffs_fit xs \<longleftrightarrow>
     list_all (\<lambda>(a, b). - (2 ^ 63) \<le> b - a \<and> b - a < 2 ^ 63) (zip xs (tl xs))"

fun runs :: "int list \<Rightarrow> int list list" where
  "runs [] = []"
| "runs [x] = [[x]]"
| "runs (x # y # zs) =
     (if y - x > 1 then [x] # runs (y # zs)
      else (x # hd (runs (y # zs))) # tl (runs (y # zs)))"

definition run_of :: "int list \<Rightarrow> int list \<Rightarrow> bool" where
  "run_of xs c \<longleftrightarrow>
     c \<noteq> [] \<and> c = [hd c..last c] \<and> hd c - 1 \<notin> set xs \<and> last c + 1 \<notin> set xs"

subsection \<open>\<^verbatim>\<open>describe_gaps\<close>\<close>

text \<open>
  A boundary is the list \<^verbatim>\<open>[flag, frequency, eigenvalue]\<close>. An entry of \<^verbatim>\<open>gaps\<close>
  is a pair of boundaries (a tuple), or, in liquid mode, a list of such pairs; the
  source tells them apart with \<^verbatim>\<open>isinstance(gap, list)\<close>.
\<close>

type_synonym boundary = "int \<times> real \<times> real"

datatype gap = Single boundary boundary | Multiple "(boundary \<times> boundary) list"

type_synonym kind = "string \<times> string"

datatype kinds_entry = Kind kind | SubKinds "kind list"

definition flag_of :: "boundary \<Rightarrow> int" where
  "flag_of g = fst g"

text \<open>
  The \<^verbatim>\<open>if/elif\<close> chain of the sub-gap loop has no \<^verbatim>\<open>else\<close>: a pair it does not
  list leaves the function-local variable \<^verbatim>\<open>kind\<close> as it was (\<open>None\<close>: not yet
  assigned).
\<close>

definition subgap_kind :: "boundary \<Rightarrow> boundary \<Rightarrow> kind option \<Rightarrow> kind option" where
  "subgap_kind gmin gmax kind =
     (if flag_of gmin = 2 \<and> flag_of gmax = 2 then Some (''p'', ''propagation zone'')
      else if flag_of gmin = 1 \<and> flag_of gmax = 1 then Some (''is'', ''inner strong band gap'')
      else if flag_of gmin = 0 \<and> flag_of gmax = 2 then Some (''iw'', ''inner weak band gap'')
      else kind)"

text \<open>
  The inner loop \<^verbatim>\<open>for gmin, gmax in gap\<close>; \<^verbatim>\<open>subkinds.append(kind)\<close> raises
  UnboundLocalError when \<^verbatim>\<open>kind\<close> was never assigned. It returns \<^verbatim>\<open>subkinds\<close> and
  the value \<^verbatim>\<open>kind\<close> is left with.
\<close>

fun describe_subgaps ::
  "(boundary \<times> boundary) list \<Rightarrow> kind option \<Rightarrow> kind list \<Rightarrow> error + (kind list \<times> kind option)"
where
  "describe_subgaps [] kind subkinds = Inr (subkinds, kind)"
| "describe_subgaps ((gmin, gmax) # rest) kind subkinds =
     (case subgap_kind gmin gmax kind of
        None \<Rightarrow> Inl UnboundLocalError
      | Some k \<Rightarrow> describe_subgaps rest (Some k) (subkinds @ [k]))"

text \<open>
  The chain for a plain pair. In its \<^verbatim>\<open>else\<close> branch the message is built by
  \<^verbatim>\<open>'%d, %d' % (gmin, gmax)\<close> with both arguments lists, which raises TypeError
  before the \<^verbatim>\<open>raise ValueError(msg)\<close> is reached.
\<close>

definition gap_kind_of :: "boundary \<Rightarrow> boundary \<Rightarrow> error + kind" where
  "gap_kind_of gmin gmax =
     (if flag_of gmin = 2 \<and> flag_of gmax = 2 then Inr (''p'', ''propagation zone'')
      else if flag_of gmin = 1 \<and> flag_of gmax = 2 then Inr (''w'', ''full weak band gap'')
      else if flag_of gmin = 0 \<and> flag_of gmax = 2
        then Inr (''wp'', ''weak band gap + propagation zone'')
      else if flag_of gmin = 1 \<and> flag_of gmax = 1
        then Inr (''s'', ''full strong band gap (due to end of freq. range or too large thresholds)'')
      else if flag_of gmin = 1 \<and> flag_of gmax = 0
        then Inr (''sw'', ''strong band gap + weak band gap'')
      else if flag_of gmin = 0 \<and> flag_of gmax = 0
        then Inr (''swp'', ''strong band gap + weak band gap + propagation zone'')
      else Inl TypeError)"

text \<open>The outer loop \<^verbatim>\<open>for ii, gap in enumerate(gaps)\<close>, with \<^verbatim>\<open>kind\<close> and \<^verbatim>\<open>kinds\<close>.\<close>

fun describe_loop :: "gap list \<Rightarrow> kind option \<Rightarrow> kinds_entry list \<Rightarrow> error + kinds_entry list" where
  "describe_loop [] kind kinds = Inr kinds"
| "describe_loop (Multiple gap # gaps) kind kinds =
     (case describe_subgaps gap kind [] of
        Inl e \<Rightarrow> Inl e
      | Inr (subkinds, kind') \<Rightarrow> describe_loop gaps kind' (kinds @ [SubKinds subkinds]))"
| "describe_loop (Single gmin gmax # gaps) kind kinds =
     (case gap_kind_of gmin gmax of
        Inl e \<Rightarrow> Inl e
      | Inr k \<Rightarrow> describe_loop gaps (Some k) (kinds @ [Kind k]))"

definition describe_gaps :: "gap list \<Rightarrow> error + kinds_entry list" where
  "describe_gaps gaps = describe_loop gaps None []"

subsection \<open>\<^verbatim>\<open>find_zero\<close>\<close>

text \<open>\<^verbatim>\<open>nm.finfo(float).eps\<close>\<close>

definition float_eps :: real where
  "float_eps = 1 / 2 ^ 52"

text \<open>\<^verbatim>\<open>ieig = {0 : 0, 1 : -1}[mode]\<close>\<close>

definition ieig_of :: "int \<Rightarrow> int option" where
  "ieig_of mode = (if mode = 0 then Some 0 else if mode = 1 then Some (- 1) else None)"

text \<open>
  The loop \<^verbatim>\<open>while 1\<close>, in the state \<open>(fm, fp)\<close>. The callback gives the
  eigenvalues at a frequency. The loop has no bound on its iterations, so its model
  is a partial function: \<open>None\<close> where the loop runs forever.
\<close>

partial_function (option) find_zero_loop ::
  "real \<Rightarrow> real \<Rightarrow> (real \<Rightarrow> real list) \<Rightarrow> real \<Rightarrow> real \<Rightarrow> int \<Rightarrow> int \<Rightarrow> real \<Rightarrow> real
     \<Rightarrow> (error + boundary) option"
where
  "find_zero_loop f0 f1 callback feps zeps mode ieig fm fp =
     (let f = 0.5 * (fm + fp); meigs = callback f in
      case py_get meigs ieig of
        Inl e \<Rightarrow> Some (Inl e)
      | Inr val \<Rightarrow>
          if \<bar>val\<bar> < zeps \<or> (fp - fm) < \<bar>fm\<bar> * float_eps then Some (Inr (0, f, val))
          else if mode = 0 \<and> (f - f0) < feps then Some (Inr (2, f0, val))
          else if mode = 0 \<and> (f1 - f) < feps then Some (Inr (1, f1, val))
          else if mode = 1 \<and> (f1 - f) < feps then Some (Inr (1, f1, val))
          else if mode = 1 \<and> (f - f0) < feps then Some (Inr (2, f0, val))
          else if val > 0 then find_zero_loop f0 f1 callback feps zeps mode ieig fm f
          else find_zero_loop f0 f1 callback feps zeps mode ieig f fp)"

definition find_zero ::
  "real \<Rightarrow> real \<Rightarrow> (real \<Rightarrow> real list) \<Rightarrow> real \<Rightarrow> real \<Rightarrow> int \<Rightarrow> (error + boundary) option"
where
  "find_zero f0 f1 callback feps zeps mode =
     (case ieig_of mode of
        None \<Rightarrow> Some (Inl KeyError)
      | Some ieig \<Rightarrow> find_zero_loop f0 f1 callback feps zeps mode ieig f0 f1)"

text \<open>
  Reference notions for the claims on \<open>find_zero\<close>. The tracked eigenvalue at a
  frequency: the entry \<open>ieig\<close> of what the callback returns. The brackets the
  bisection can reach from \<open>(f0, f1)\<close>: each step keeps the left half when the
  tracked eigenvalue at the midpoint is positive, the right half otherwise. And what
  it means that the result \<open>r\<close> is returned at the bracket \<open>(fm, fp)\<close> through one
  of the three exits of the loop.
\<close>

definition tracked_eig :: "(real \<Rightarrow> real list) \<Rightarrow> int \<Rightarrow> real \<Rightarrow> error + real" where
  "tracked_eig callback mode f =
     (case ieig_of mode of None \<Rightarrow> Inl KeyError | Some ieig \<Rightarrow> py_get (callback f) ieig)"

inductive reach :: "(real \<Rightarrow> real list) \<Rightarrow> int \<Rightarrow> real \<Rightarrow> real \<Rightarrow> real \<Rightarrow> real \<Rightarrow> bool"
  for callback ieig f0 f1
where
  reach_init: "reach callback ieig f0 f1 f0 f1"
| reach_left: "reach callback ieig f0 f1 fm fp \<Longrightarrow>
     py_get (callback (0.5 * (fm + fp))) ieig = Inr val \<Longrightarrow> val > 0 \<Longrightarrow>
     reach callback ieig f0 f1 fm (0.5 * (fm + fp))"
| reach_right: "reach callback ieig f0 f1 fm fp \<Longrightarrow>
     py_get (callback (0.5 * (fm + fp))) ieig = Inr val \<Longrightarrow> \<not> val > 0 \<Longrightarrow>
     reach callback ieig f0 f1 (0.5 * (fm + fp)) fp"

definition returns_by ::
  "(real \<Rightarrow> real list) \<Rightarrow> int \<Rightarrow> real \<Rightarrow> real \<Rightarrow> real \<Rightarrow> real \<Rightarrow> boundary \<Rightarrow> real \<Rightarrow> real \<Rightarrow> bool"
where
  "returns_by callback ieig f0 f1 feps zeps r fm fp \<longleftrightarrow>
     (let f = 0.5 * (fm + fp); flag = fst r; freq = fst (snd r); val = snd (snd r) in
      py_get (callback f) ieig = Inr val \<and>
      (flag = 0 \<and> freq = f \<and> (\<bar>val\<bar> < zeps \<or> fp - fm < \<bar>fm\<bar> * float_eps)
       \<or> flag = 2 \<and> freq = f0 \<and> f - f0 < feps
       \<or> flag = 1 \<and> freq = f1 \<and> f1 - f < feps))"

subsection \<open>float64 rounding\<close>

text \<open>
  The result of a float64 operation is the exact result rounded to the nearest
  number with a significand of 53 bits, a tie going to the even significand.
  \<open>binade x\<close> is the exponent \<open>e\<close> with \<open>2^e \<le> |x| < 2^(e+1)\<close>, and the spacing of the
  float64 numbers there is \<open>2^(e-52)\<close>. The exponent range is not bounded: there
  is no overflow to infinity and there are no subnormal numbers.
\<close>

definition ties_even :: "real \<Rightarrow> int" where
  "ties_even y =
     (let n = \<lfloor>y\<rfloor>; r = y - of_int n in
      if r < 1 / 2 then n else if 1 / 2 < r then n + 1 else if even n then n else n + 1)"

definition binade :: "real \<Rightarrow> int" where
  "binade x = \<lfloor>log 2 \<bar>x\<bar>\<rfloor>"

definition round64 :: "real \<Rightarrow> real" where
  "round64 x =
     (if x = 0 then 0
      else of_int (ties_even (x / 2 powi (binade x - 52))) * 2 powi (binade x - 52))"

subsection \<open>\<^verbatim>\<open>DensityVolumeInfo.__call__\<close>\<close>

record density_volume_info =
  average_density :: real
  total_volume :: real
  volumes :: "string \<rightharpoonup> real"
  densities :: "string \<rightharpoonup> real"

text \<open>
  The loop over \<^verbatim>\<open>self.region_to_material.iteritems()\<close>, in the order of the
  iteration; its state is \<open>(average_density, total_volume, volumes, densities)\<close>.
  \<open>vf\<close> is the dictionary \<^verbatim>\<open>data[self.requires[0]]\<close>; a missing key raises KeyError.
  The two sums are accumulated in float64: the product and each addition are
  rounded.

  Modelled from the spec: the lookup \<^verbatim>\<open>problem.conf.get_item_by_name('materials',
  mat_name).values[item_name]\<close> is code of the configuration classes, which are not
  part of the sources at hand. It is the parameter \<open>conf\<close>, which gives the density
  for a material name and a property key, and \<open>None\<close> when the material or the
  property is missing (the configuration error of the specification).
\<close>

definition volume_key :: "string \<Rightarrow> string" where
  "volume_key region_name = ''volume_'' @ region_name"

fun dvi_loop ::
  "(string \<times> string \<times> string) list \<Rightarrow> (string \<rightharpoonup> real) \<Rightarrow> (string \<Rightarrow> string \<Rightarrow> real option)
     \<Rightarrow> real \<times> real \<times> (string \<rightharpoonup> real) \<times> (string \<rightharpoonup> real)
     \<Rightarrow> error + real \<times> real \<times> (string \<rightharpoonup> real) \<times> (string \<rightharpoonup> real)"
where
  "dvi_loop [] vf conf st = Inr st"
| "dvi_loop ((region_name, mat_name, item_name) # rest) vf conf (avg, tot, vols, dens) =
     (case vf (volume_key region_name) of
        None \<Rightarrow> Inl KeyError
      | Some vol \<Rightarrow>
          (case conf mat_name item_name of
             None \<Rightarrow> Inl ConfigurationError
           | Some density \<Rightarrow>
               dvi_loop rest vf conf
                 (round64 (avg + round64 (vol * density)), round64 (tot + vol),
                  vols(region_name \<mapsto> vol), dens(region_name \<mapsto> density))))"

text \<open>
  \<open>true_volume\<close> is the value of \<^verbatim>\<open>self._get_volume(volume)\<close>. The helper \<^verbatim>\<open>assert_\<close>
  raises ValueError (the source catches that exception after another \<^verbatim>\<open>assert_\<close>).
  The volumes are numpy float64 scalars, so the division by a zero \<open>true_volume\<close>
  does not raise: its value is \<open>inf\<close> or \<open>nan\<close>, neither of which is below the bound,
  and the assertion fails. The subtraction, the division and the literal \<open>1e-14\<close>
  are rounded to float64; the absolute value is exact.
\<close>

definition DensityVolumeInfo_call ::
  "(string \<times> string \<times> string) list \<Rightarrow> (string \<rightharpoonup> real) \<Rightarrow> (string \<Rightarrow> string \<Rightarrow> real option)
     \<Rightarrow> real \<Rightarrow> error + density_volume_info"
where
  "DensityVolumeInfo_call region_to_material vf conf true_volume =
     (case dvi_loop region_to_material vf conf (0, 0, Map.empty, Map.empty) of
        Inl e \<Rightarrow> Inl e
      | Inr (avg, tot, vols, dens) \<Rightarrow>
          if true_volume = 0
            then Inl (ValueError ''assertion failed!'')
          else if \<not> (round64 (\<bar>round64 (tot - true_volume)\<bar> / true_volume) < round64 (1 / 10 ^ 14))
            then Inl (ValueError ''assertion failed!'')
          else Inr \<lparr>average_density = round64 (avg / true_volume), total_volume = tot,
                     volumes = vols, densities = dens\<rparr>)"

text \<open>
  Reference notions: the volume the loop reads for a region, whether the volume and
  the density of a region are found, the total volume as float64 accumulates it
  over the regions in the order of the iteration, and the relative deviation of
  that total from the supplied one, as float64 computes it.
\<close>

definition region_volume :: "(string \<rightharpoonup> real) \<Rightarrow> string \<times> string \<times> string \<Rightarrow> real" where
  "region_volume vf r = (case vf (volume_key (fst r)) of Some v \<Rightarrow> v | None \<Rightarrow> 0)"

definition region_known ::
  "(string \<rightharpoonup> real) \<Rightarrow> (string \<Rightarrow> string \<Rightarrow> real option) \<Rightarrow> string \<times> string \<times> string \<Rightarrow> bool"
where
  "region_known vf conf r \<longleftrightarrow>
     vf (volume_key (fst r)) \<noteq> None \<and> conf (fst (snd r)) (snd (snd r)) \<noteq> None"

definition accumulated_volume ::
  "(string \<rightharpoonup> real) \<Rightarrow> (string \<times> string \<times> string) list \<Rightarrow> real"
where
  "accumulated_volume vf rtm = foldl (\<lambda>tot r. round64 (tot + region_volume vf r)) 0 rtm"

definition relative_deviation :: "real \<Rightarrow> real \<Rightarrow> real" where
  "relative_deviation accumulated supplied =
     round64 (\<bar>round64 (accumulated - supplied)\<bar> / \<bar>supplied\<bar>)"

text \<open>
  The regions of the worked example: \<open>A\<close> with volume 2 and density 10, \<open>B\<close> with
  volume 3 and density 20.
\<close>

definition example_regions :: "(string \<times> string \<times> string) list" where
  "example_regions = [(''A'', ''solid'', ''density''), (''B'', ''fluid'', ''density'')]"

definition example_volumes :: "string \<rightharpoonup> real" where
  "example_volumes = [''volume_A'' \<mapsto> 2, ''volume_B'' \<mapsto> 3]"

definition example_conf :: "string \<Rightarrow> string \<Rightarrow> real option" where
  "example_conf mat_name item_name =
     (if item_name \<noteq> ''density'' then None
      else if mat_name = ''solid'' then Some 10
      else if mat_name = ''fluid'' then Some 20
      else None)"

subsection \<open>\<^verbatim>\<open>Eigenmomenta.__call__\<close>: thresholding\<close>

text \<open>
  Modelled from the spec: \<^verbatim>\<open>norm_l2_along_axis\<close> is imported from \<^verbatim>\<open>sfepy.linalg\<close>,
  which is not part of the sources at hand; by the specification it gives the L2
  norm of each row.
\<close>

definition norm_l2_along_axis :: "real list list \<Rightarrow> real list" where
  "norm_l2_along_axis ar = map (\<lambda>row. sqrt (sum_list (map (\<lambda>x. x * x) row))) ar"

record eigenmomenta_out =
  n_zeroed :: nat
  eigenmomenta :: "real list list"
  valid :: "bool list"

text \<open>\<^verbatim>\<open>eigenmomenta[mask, :] = 0.0\<close>\<close>

definition zero_rows :: "real list list \<Rightarrow> nat list \<Rightarrow> real list list" where
  "zero_rows em zeroed = fold (\<lambda>i m. m[i := replicate (length (m ! i)) 0]) zeroed em"

text \<open>
  The part of \<^verbatim>\<open>__call__\<close> after \<^verbatim>\<open>compute_eigenmomenta\<close>, whose result is the
  argument \<open>em\<close> (one row for each eigenvector). \<^verbatim>\<open>mag.max()\<close> of an empty array
  raises ValueError.
\<close>

definition Eigenmomenta_call :: "real \<Rightarrow> bool \<Rightarrow> real list list \<Rightarrow> error + eigenmomenta_out" where
  "Eigenmomenta_call threshold threshold_is_relative em =
     (let mag = norm_l2_along_axis em in
      if threshold_is_relative \<and> mag = [] then Inl (ValueError ''zero-size array'')
      else
        let tol = (if threshold_is_relative then threshold * fold max (tl mag) (hd mag)
                   else threshold);
            is_valid = map (\<lambda>m. \<not> m < tol) mag;
            zeroed = filter (\<lambda>i. is_valid ! i = False) [0..<length is_valid]
        in Inr \<lparr>n_zeroed = length zeroed, eigenmomenta = zero_rows em zeroed,
                 valid = is_valid\<rparr>)"

subsection \<open>\<^verbatim>\<open>AcousticMassTensor\<close>\<close>

text \<open>
  The values of the mass tensor: a finite number or one of the IEEE special values.
  Arithmetic on finite numbers is exact; the special values follow IEEE 754, with a
  zero divisor taken as \<open>+0\<close> (the difference of two equal numbers). numpy divides by
  zero without raising.
\<close>

datatype fl = Fin real | PInf | NInf | NaN

fun isfinite :: "fl \<Rightarrow> bool" where
  "isfinite (Fin x) = True"
| "isfinite PInf = False"
| "isfinite NInf = False"
| "isfinite NaN = False"

fun fneg :: "fl \<Rightarrow> fl" where
  "fneg (Fin x) = Fin (- x)"
| "fneg PInf = NInf"
| "fneg NInf = PInf"
| "fneg NaN = NaN"

fun fadd :: "fl \<Rightarrow> fl \<Rightarrow> fl" where
  "fadd (Fin x) (Fin y) = Fin (x + y)"
| "fadd (Fin x) PInf = PInf"
| "fadd (Fin x) NInf = NInf"
| "fadd PInf (Fin y) = PInf"
| "fadd PInf PInf = PInf"
| "fadd PInf NInf = NaN"
| "fadd NInf (Fin y) = NInf"
| "fadd NInf PInf = NaN"
| "fadd NInf NInf = NInf"
| "fadd NaN b = NaN"
| "fadd a NaN = NaN"

definition fsub :: "fl \<Rightarrow> fl \<Rightarrow> fl" where
  "fsub a b = fadd a (fneg b)"

fun fmul :: "fl \<Rightarrow> fl \<Rightarrow> fl" where
  "fmul (Fin x) (Fin y) = Fin (x * y)"
| "fmul (Fin x) PInf = (if x = 0 then NaN else if 0 < x then PInf else NInf)"
| "fmul (Fin x) NInf = (if x = 0 then NaN else if 0 < x then NInf else PInf)"
| "fmul PInf (Fin y) = (if y = 0 then NaN else if 0 < y then PInf else NInf)"
| "fmul NInf (Fin y) = (if y = 0 then NaN else if 0 < y then NInf else PInf)"
| "fmul PInf PInf = PInf"
| "fmul PInf NInf = NInf"
| "fmul NInf PInf = NInf"
| "fmul NInf NInf = PInf"
| "fmul NaN b = NaN"
| "fmul a NaN = NaN"

fun fdiv :: "fl \<Rightarrow> fl \<Rightarrow> fl" where
  "fdiv (Fin x) (Fin y) =
     (if y \<noteq> 0 then Fin (x / y)
      else if x = 0 then NaN else if 0 < x then PInf else NInf)"
| "fdiv (Fin x) PInf = Fin 0"
| "fdiv (Fin x) NInf = Fin 0"
| "fdiv PInf (Fin y) = (if 0 \<le> y then PInf else NInf)"
| "fdiv NInf (Fin y) = (if 0 \<le> y then NInf else PInf)"
| "fdiv PInf PInf = NaN"
| "fdiv PInf NInf = NaN"
| "fdiv NInf PInf = NaN"
| "fdiv NInf NInf = NaN"
| "fdiv NaN b = NaN"
| "fdiv a NaN = NaN"

text \<open>\<^verbatim>\<open>nm.sum\<close> of a vector (zero for the empty one).\<close>

definition fsum :: "fl list \<Rightarrow> fl" where
  "fsum xs = foldl fadd (Fin 0) xs"

text \<open>Indexing with a boolean mask, \<^verbatim>\<open>xs[mask]\<close>: the entries whose flag is set.\<close>

definition mask_select :: "'a list \<Rightarrow> bool list \<Rightarrow> 'a list" where
  "mask_select xs msk = map fst (filter snd (zip xs msk))"

text \<open>
  The state \<^verbatim>\<open>__call__\<close> leaves in the instance: the valid eigenvalues and the valid
  rows of the eigenmomenta, the number of their columns (\<^verbatim>\<open>ema.shape[1]\<close>), and the
  two numbers read from \<^verbatim>\<open>dv_info\<close>. A mask of another length than the array raises
  IndexError.
\<close>

record acoustic_mass_tensor =
  mt_eigs :: "fl list"
  mt_eigenmomenta :: "fl list list"
  mt_n_c :: nat
  mt_average_density :: fl
  mt_total_volume :: fl

definition AcousticMassTensor_call ::
  "fl list \<Rightarrow> fl \<Rightarrow> fl \<Rightarrow> fl list list \<Rightarrow> nat \<Rightarrow> bool list \<Rightarrow> error + acoustic_mass_tensor"
where
  "AcousticMassTensor_call evp_eigs dv_average_density dv_total_volume ema_eigenmomenta n_c ema_valid =
     (if length ema_valid \<noteq> length evp_eigs \<or> length ema_valid \<noteq> length ema_eigenmomenta
      then Inl IndexError
      else Inr \<lparr>mt_eigs = mask_select evp_eigs ema_valid,
                mt_eigenmomenta = mask_select ema_eigenmomenta ema_valid,
                mt_n_c = n_c,
                mt_average_density = dv_average_density,
                mt_total_volume = dv_total_volume\<rparr>)"

text \<open>\<^verbatim>\<open>get_coefs\<close>: the numerator \<open>freq\<^sup>2\<close> and the denominators \<open>freq\<^sup>2 - eigs\<close>.\<close>

definition get_coefs :: "acoustic_mass_tensor \<Rightarrow> fl \<Rightarrow> fl \<times> fl list" where
  "get_coefs mt freq =
     (let f2 = fmul freq freq; de = map (\<lambda>e. fsub f2 e) (mt_eigs mt) in (f2, de))"

text \<open>
  \<^verbatim>\<open>nm.sum((num / denom) * (ema[:, ir] * ema[:, ic]))\<close>. The denominators and the
  columns have the same length in every tensor that \<open>AcousticMassTensor_call\<close>
  builds.
\<close>

definition column :: "fl list list \<Rightarrow> nat \<Rightarrow> fl list" where
  "column ema j = map (\<lambda>row. row ! j) ema"

definition mode_sum :: "fl \<Rightarrow> fl list \<Rightarrow> fl list list \<Rightarrow> nat \<Rightarrow> nat \<Rightarrow> fl" where
  "mode_sum num denom ema ir ic =
     fsum (map2 fmul (map (\<lambda>d. fdiv num d) denom) (map2 fmul (column ema ir) (column ema ic)))"

text \<open>
  The two nested loops over \<^verbatim>\<open>range(n_c)\<close>, updating the matrix \<^verbatim>\<open>fmass\<close> in place:
  on and above the diagonal the sum is added to the entry, below the diagonal the
  mirrored entry is copied.
\<close>

definition mat_set :: "fl list list \<Rightarrow> nat \<Rightarrow> nat \<Rightarrow> fl \<Rightarrow> fl list list" where
  "mat_set m i j v = m[i := (m ! i)[j := v]]"

definition fmass_step :: "fl \<Rightarrow> fl list \<Rightarrow> fl list list \<Rightarrow> nat \<Rightarrow> fl list list \<Rightarrow> nat \<Rightarrow> fl list list" where
  "fmass_step num denom ema ir fmass ic =
     (if ir \<le> ic
      then mat_set fmass ir ic (fadd (fmass ! ir ! ic) (mode_sum num denom ema ir ic))
      else mat_set fmass ir ic (fmass ! ic ! ir))"

definition fmass_loops :: "fl \<Rightarrow> fl list \<Rightarrow> fl list list \<Rightarrow> nat \<Rightarrow> fl list list" where
  "fmass_loops num denom ema n_c =
     foldl (\<lambda>fmass ir. foldl (fmass_step num denom ema ir) fmass [0..<n_c])
       (replicate n_c (replicate n_c (Fin 0))) [0..<n_c]"

text \<open>
  \<^verbatim>\<open>evaluate\<close>: the check of the denominators, the loops, and
  \<^verbatim>\<open>eye * average_density - fmass / total_volume\<close>, entry by entry.
\<close>

definition evaluate :: "acoustic_mass_tensor \<Rightarrow> fl \<Rightarrow> error + fl list list" where
  "evaluate mt freq =
     (let ema = mt_eigenmomenta mt; n_c = mt_n_c mt; (num, denom) = get_coefs mt freq in
      if \<not> list_all isfinite denom then Inl (ValueError ''frequency too close to resonance!'')
      else
        let fmass = fmass_loops num denom ema n_c in
        Inr (map (\<lambda>ir. map (\<lambda>ic.
               fsub (fmul (if ir = ic then Fin 1 else Fin 0) (mt_average_density mt))
                    (fdiv (fmass ! ir ! ic) (mt_total_volume mt))) [0..<n_c]) [0..<n_c]))"

text \<open>
  Reference notions for the claims on \<open>evaluate\<close>: the valid modes (eigenvalue and
  momentum row), the sum \<open>F[ir][ic]\<close> over them, and the shape of an \<open>n \<times> n\<close> matrix.
\<close>

definition valid_modes :: "fl list \<Rightarrow> fl list list \<Rightarrow> bool list \<Rightarrow> (fl \<times> fl list) list" where
  "valid_modes evp_eigs ema_eigenmomenta ema_valid = mask_select (zip evp_eigs ema_eigenmomenta) ema_valid"

definition resonance_sum :: "fl \<Rightarrow> (fl \<times> fl list) list \<Rightarrow> nat \<Rightarrow> nat \<Rightarrow> fl" where
  "resonance_sum freq modes ir ic =
     fsum (map (\<lambda>(eig, momentum).
             fmul (fdiv (fmul freq freq) (fsub (fmul freq freq) eig))
                  (fmul (momentum ! ir) (momentum ! ic))) modes)"

definition square_mat :: "nat \<Rightarrow> fl list list \<Rightarrow> bool" where
  "square_mat n m \<longleftrightarrow> length m = n \<and> list_all (\<lambda>row. length row = n) m"

definition fmass_final :: "fl \<Rightarrow> fl list \<Rightarrow> fl list list \<Rightarrow> nat \<Rightarrow> nat \<Rightarrow> fl" where
  "fmass_final num denom ema i j =
     (if i \<le> j then mode_sum num denom ema i j else mode_sum num denom ema j i)"

subsection \<open>\<^verbatim>\<open>detect_band_gaps\<close>\<close>





















section \<open>Properties\<close>


subsection \<open>\<^verbatim>\<open>describe_gaps\<close>\<close>

text \<open>
  The chain for a plain pair gives a kind to the six pairs of the table and raises on
  every other pair.
\<close>

lemma gap_kind_of_raises_iff:
  "gap_kind_of gmin gmax = Inl TypeError \<longleftrightarrow>
     (flag_of gmin, flag_of gmax) \<notin> {(2, 2), (1, 2), (0, 2), (1, 1), (1, 0), (0, 0)}"
  by (simp add: gap_kind_of_def)

text \<open>
  Claim C3. The plain pairs of the table get their kinds and any other plain pair
  raises, but a sub-gap pair outside the table does not raise: the chain in the
  sub-gap loop has no \<^verbatim>\<open>else\<close>, so the pair \<open>(2, 1)\<close> below is given the kind that
  the variable \<^verbatim>\<open>kind\<close> still holds from the entry before it.
\<close>

theorem describe_gaps_subgap_absorbed:
  "describe_gaps [Single (2, 1, 1 / 2) (2, 1, 1), Multiple [((2, 2, 1 / 2), (1, 3, - 1))]]
     = Inr [Kind (''p'', ''propagation zone''), SubKinds [(''p'', ''propagation zone'')]]"
  by (simp add: describe_gaps_def gap_kind_of_def subgap_kind_def flag_of_def)

subsection \<open>\<^verbatim>\<open>find_zero\<close>\<close>

lemma find_zero_loop_returns:
  assumes run: "find_zero_loop f0 f1 callback feps zeps mode ieig fm fp = Some (Inr r)"
    and start: "reach callback ieig f0 f1 fm fp"
  shows "\<exists>fm' fp'. reach callback ieig f0 f1 fm' fp'
           \<and> returns_by callback ieig f0 f1 feps zeps r fm' fp'"
proof -
  define P :: "real \<Rightarrow> real \<Rightarrow> (real \<Rightarrow> real list) \<Rightarrow> real \<Rightarrow> real \<Rightarrow> int \<Rightarrow> int \<Rightarrow> real \<Rightarrow> real
      \<Rightarrow> error + boundary \<Rightarrow> bool"
    where "P = (\<lambda>f0 f1 cb feps zeps mode ieig fm fp y.
               reach cb ieig f0 f1 fm fp \<longrightarrow>
               (\<forall>r. y = Inr r \<longrightarrow>
                 (\<exists>fm' fp'. reach cb ieig f0 f1 fm' fp'
                    \<and> returns_by cb ieig f0 f1 feps zeps r fm' fp')))"
  have "P f0 f1 callback feps zeps mode ieig fm fp (Inr r)"
  proof (rule find_zero_loop.raw_induct[where P = P, OF _ run], goal_cases)
    case (1 loop f0 f1 cb feps zeps mode ieig fm fp y)
    show ?case unfolding P_def
    proof (intro impI allI)
      fix r
      assume rch: "reach cb ieig f0 f1 fm fp" and y: "y = Inr r"
      let ?f = "0.5 * (fm + fp)"
      obtain val where val: "py_get (cb ?f) ieig = Inr val"
        using 1(2) y by (cases "py_get (cb ?f) ieig") (auto simp: Let_def)
      consider (ret) "returns_by cb ieig f0 f1 feps zeps r fm fp"
        | (left) "0 < val" "loop f0 f1 cb feps zeps mode ieig fm ?f = Some y"
        | (right) "\<not> 0 < val" "loop f0 f1 cb feps zeps mode ieig ?f fp = Some y"
        using 1(2) val y
        by (auto simp: Let_def returns_by_def split: if_splits)
      then show "\<exists>fm' fp'. reach cb ieig f0 f1 fm' fp'
                    \<and> returns_by cb ieig f0 f1 feps zeps r fm' fp'"
      proof cases
        case ret
        then show ?thesis using rch by blast
      next
        case left
        have "reach cb ieig f0 f1 fm ?f" using rch val left(1) by (rule reach_left)
        then show ?thesis using 1(1)[OF left(2)] y unfolding P_def by blast
      next
        case right
        have "reach cb ieig f0 f1 ?f fp" using rch val right(1) by (rule reach_right)
        then show ?thesis using 1(1)[OF right(2)] y unfolding P_def by blast
      qed
    qed
  qed
  then show ?thesis using start unfolding P_def by blast
qed

lemma find_zero_loop_diverges:
  assumes run: "find_zero_loop 0 1 (\<lambda>f. [1]) 0 (1 / 10 ^ 8) 0 0 0 fp = Some y"
    and fp: "0 < fp" "fp \<le> 1"
  shows False
proof -
  define P :: "real \<Rightarrow> real \<Rightarrow> (real \<Rightarrow> real list) \<Rightarrow> real \<Rightarrow> real \<Rightarrow> int \<Rightarrow> int \<Rightarrow> real \<Rightarrow> real
      \<Rightarrow> error + boundary \<Rightarrow> bool"
    where "P = (\<lambda>f0 f1 cb feps zeps mode ieig fm fp y.
               (f0 = 0 \<and> f1 = 1 \<and> cb = (\<lambda>f. [1]) \<and> feps = 0 \<and> zeps = 1 / 10 ^ 8
                \<and> mode = 0 \<and> ieig = 0 \<and> fm = 0 \<and> 0 < fp \<and> fp \<le> 1) \<longrightarrow> False)"
  have "P 0 1 (\<lambda>f. [1]) 0 (1 / 10 ^ 8) 0 0 0 fp y"
  proof (rule find_zero_loop.raw_induct[where P = P, OF _ run], goal_cases)
    case (1 loop f0 f1 cb feps zeps mode ieig fm fp y)
    show ?case unfolding P_def
    proof (intro impI, elim conjE)
      assume h: "f0 = 0" "f1 = 1" "cb = (\<lambda>f. [1])" "feps = 0" "zeps = 1 / 10 ^ 8"
        "mode = 0" "ieig = 0" "fm = 0" "0 < fp" "fp \<le> 1"
      have "loop 0 1 (\<lambda>f. [1]) 0 (1 / 10 ^ 8) 0 0 0 (fp / 2) = Some y"
        using 1(2) h by (simp add: Let_def py_get_def float_eps_def split: if_splits)
      then show False using 1(1)[of 0 1 "\<lambda>f. [1]" 0 "1 / 10 ^ 8" 0 0 0 "fp / 2" y] h
        by (simp add: P_def)
    qed
  qed
  then show False using fp by (simp add: P_def)
qed

text \<open>
  Claim C2. Whenever the tracked eigenvalue of the callback is zero at 1.5, the search
  on \<open>[1, 2]\<close> with \<open>feps = 1e-6\<close> and \<open>zeps = 1e-8\<close> returns, with flag 0 and a
  frequency within \<open>1e-5\<close> of 1.5: the first midpoint is 1.5 itself. Monotonicity
  and the uniqueness of the zero are not needed.
\<close>

theorem find_zero_midpoint_root:
  assumes "tracked_eig callback mode (3 / 2) = Inr 0"
  shows "\<exists>f val. find_zero 1 2 callback (1 / 10 ^ 6) (1 / 10 ^ 8) mode = Some (Inr (0, f, val))
           \<and> \<bar>f - 3 / 2\<bar> < 1 / 10 ^ 5"
proof -
  obtain ieig where i: "ieig_of mode = Some ieig" and v: "py_get (callback (3 / 2)) ieig = Inr 0"
    using assms by (auto simp: tracked_eig_def split: option.splits)
  have "find_zero_loop 1 2 callback (1 / 10 ^ 6) (1 / 10 ^ 8) mode ieig 1 2
          = Some (Inr (0, 3 / 2, 0))"
    using v by (subst find_zero_loop.simps) (simp add: Let_def)
  then have "find_zero 1 2 callback (1 / 10 ^ 6) (1 / 10 ^ 8) mode = Some (Inr (0, 3 / 2, 0))"
    using i by (simp add: find_zero_def)
  moreover have "\<bar>3 / 2 - 3 / 2 :: real\<bar> < 1 / 10 ^ 5" by simp
  ultimately show ?thesis by blast
qed

theorem find_zero_midpoint_root_witness:
  "tracked_eig (\<lambda>f. [f - 3 / 2, f]) 0 (3 / 2) = Inr 0
   \<and> (\<exists>f val. find_zero 1 2 (\<lambda>f. [f - 3 / 2, f]) (1 / 10 ^ 6) (1 / 10 ^ 8) 0
                  = Some (Inr (0, f, val)) \<and> \<bar>f - 3 / 2\<bar> < 1 / 10 ^ 5)"
proof -
  have h: "tracked_eig (\<lambda>f. [f - 3 / 2, f]) 0 (3 / 2) = Inr 0"
    by (simp add: tracked_eig_def ieig_of_def py_get_def)
  show ?thesis using h find_zero_midpoint_root[OF h] by blast
qed

text \<open>
  Claim C6. A result of \<open>find_zero\<close> is returned at a bracket that the bisection
  reaches from \<open>(f0, f1)\<close>, through one of the exits: flag 0 with the midpoint when
  the tracked eigenvalue there is below \<open>zeps\<close> in magnitude or the bracket is
  narrower than \<open>|fm|\<close> times the machine epsilon; flag 2 with \<open>f0\<close> when the midpoint
  is within \<open>feps\<close> of \<open>f0\<close>; flag 1 with \<open>f1\<close> when it is within \<open>feps\<close> of \<open>f1\<close>.
  And the loop need not end: for the callback that is constantly 1 (no sign change)
  on \<open>]0, 1[\<close> with \<open>feps = 0\<close>, no exit is ever taken.
\<close>

theorem find_zero_exits_or_diverges:
  "(\<forall>f0 f1 callback feps zeps mode r.
      find_zero f0 f1 callback feps zeps mode = Some (Inr r) \<longrightarrow>
      (\<exists>ieig fm fp. ieig_of mode = Some ieig \<and> reach callback ieig f0 f1 fm fp
          \<and> returns_by callback ieig f0 f1 feps zeps r fm fp))
   \<and> find_zero 0 1 (\<lambda>f. [1]) 0 (1 / 10 ^ 8) 0 = None"
proof (intro conjI allI impI)
  fix f0 f1 callback feps zeps mode r
  assume run: "find_zero f0 f1 callback feps zeps mode = Some (Inr r)"
  then obtain ieig where i: "ieig_of mode = Some ieig"
    and l: "find_zero_loop f0 f1 callback feps zeps mode ieig f0 f1 = Some (Inr r)"
    by (auto simp: find_zero_def split: option.splits)
  show "\<exists>ieig fm fp. ieig_of mode = Some ieig \<and> reach callback ieig f0 f1 fm fp
          \<and> returns_by callback ieig f0 f1 feps zeps r fm fp"
    using find_zero_loop_returns[OF l reach_init] i by blast
next
  have "find_zero_loop 0 1 (\<lambda>f. [1]) 0 (1 / 10 ^ 8) 0 0 0 1 = None"
    using find_zero_loop_diverges[of 1] by (cases "find_zero_loop 0 1 (\<lambda>f. [1]) 0 (1 / 10 ^ 8) 0 0 0 1") auto
  then show "find_zero 0 1 (\<lambda>f. [1]) 0 (1 / 10 ^ 8) 0 = None"
    by (simp add: find_zero_def ieig_of_def)
qed

theorem find_zero_exits_or_diverges_witness:
  "find_zero 1 2 (\<lambda>f. [f - 3 / 2]) (1 / 10 ^ 6) (1 / 10 ^ 8) 1 = Some (Inr (0, 3 / 2, 0))
   \<and> (\<exists>ieig fm fp. ieig_of 1 = Some ieig \<and> reach (\<lambda>f. [f - 3 / 2]) ieig 1 2 fm fp
          \<and> returns_by (\<lambda>f. [f - 3 / 2]) ieig 1 2 (1 / 10 ^ 6) (1 / 10 ^ 8) (0, 3 / 2, 0) fm fp)
   \<and> find_zero 0 1 (\<lambda>f. [1]) 0 (1 / 10 ^ 8) 0 = None"
proof -
  have "find_zero_loop 1 2 (\<lambda>f. [f - 3 / 2]) (1 / 10 ^ 6) (1 / 10 ^ 8) 1 (- 1) 1 2
          = Some (Inr (0, 3 / 2, 0))"
    by (subst find_zero_loop.simps) (simp add: Let_def py_get_def)
  then have run: "find_zero 1 2 (\<lambda>f. [f - 3 / 2]) (1 / 10 ^ 6) (1 / 10 ^ 8) 1
                    = Some (Inr (0, 3 / 2, 0))"
    by (simp add: find_zero_def ieig_of_def)
  show ?thesis using run find_zero_exits_or_diverges by blast
qed

subsection \<open>float64 rounding\<close>

lemma ties_even_of_int: "ties_even (of_int n) = n"
  by (simp add: ties_even_def)

lemma ties_even_ge: "of_int a \<le> y \<Longrightarrow> a \<le> ties_even y"
proof -
  assume "of_int a \<le> y"
  then have "a \<le> \<lfloor>y\<rfloor>" by (simp add: le_floor_iff)
  then show ?thesis by (simp add: ties_even_def Let_def)
qed

lemma ties_even_le: "y \<le> of_int b \<Longrightarrow> ties_even y \<le> b"
proof (cases "y = of_int b")
  case True then show ?thesis by (simp add: ties_even_of_int)
next
  case False
  assume "y \<le> of_int b"
  then have "y < of_int b" using False by simp
  then have "\<lfloor>y\<rfloor> < b" by (simp add: floor_less_iff)
  then show ?thesis by (simp add: ties_even_def Let_def)
qed

lemma powr2: "2 powr (of_int k) = (2::real) powi k"
  by (simp add: powr_real_of_int')

lemma powi2_less_D: "(2::real) powi m < 2 powi n \<Longrightarrow> m < n"
proof (rule ccontr)
  assume a: "(2::real) powi m < 2 powi n" and "\<not> m < n"
  then have "n \<le> m" by simp
  then have "(2::real) powi n \<le> 2 powi m" by (rule power_int_increasing) simp
  then show False using a by linarith
qed

lemma binade_iff:
  assumes "x \<noteq> 0"
  shows "binade x = e \<longleftrightarrow> 2 powi e \<le> \<bar>x\<bar> \<and> \<bar>x\<bar> < 2 powi (e + 1)"
proof -
  have p: "0 < \<bar>x\<bar>" using assms by simp
  have "1 < (2::real)" by simp
  from floor_log_eq_powr_iff[OF p this, of e]
  have "binade x = e \<longleftrightarrow> 2 powr (of_int e) \<le> \<bar>x\<bar> \<and> \<bar>x\<bar> < 2 powr (of_int (e + 1))"
    unfolding binade_def by (simp only: of_int_add of_int_1)
  then show ?thesis unfolding powr2 .
qed

lemma binade_bounds:
  assumes "x \<noteq> 0"
  shows "2 powi binade x \<le> \<bar>x\<bar>" and "\<bar>x\<bar> < 2 powi (binade x + 1)"
  using binade_iff[OF assms, of "binade x"] by simp_all

lemma binade_eqI:
  assumes "2 powi e \<le> \<bar>x\<bar>" and "\<bar>x\<bar> < 2 powi (e + 1)"
  shows "binade x = e"
proof -
  have "(0::real) < 2 powi e" by simp
  then have "0 < \<bar>x\<bar>" using assms(1) by linarith
  then have "x \<noteq> 0" by simp
  from binade_iff[OF this, of e] assms show ?thesis by simp
qed

text \<open>A number with a significand of at most 53 bits is a float64: rounding keeps it.\<close>

lemma round64_exact:
  assumes x: "x = of_int n * 2 powi k" and n: "\<bar>n\<bar> < 2 ^ 53"
  shows "round64 x = x"
proof (cases "x = 0")
  case True then show ?thesis by (simp add: round64_def)
next
  case False
  define e where "e = binade x"
  have n0: "n \<noteq> 0" using False x by auto
  have "\<bar>x\<bar> = of_int \<bar>n\<bar> * 2 powi k" by (simp add: x abs_mult)
  also have "\<dots> < 2 ^ 53 * 2 powi k"
  proof -
    have "real_of_int \<bar>n\<bar> < real_of_int (2 ^ 53)" using n by (simp only: of_int_less_iff)
    then have "real_of_int \<bar>n\<bar> < 2 ^ 53" by simp
    moreover have "(0::real) < 2 powi k" by simp
    ultimately show ?thesis by (rule mult_strict_right_mono)
  qed
  also have "\<dots> = 2 powi (53 + k)" by (simp add: power_int_add)
  finally have up: "\<bar>x\<bar> < 2 powi (53 + k)" .
  have "2 powi e \<le> \<bar>x\<bar>" unfolding e_def by (rule binade_bounds(1)[OF False])
  then have "(2::real) powi e < 2 powi (53 + k)" using up by linarith
  then have "e < 53 + k" by (rule powi2_less_D)
  then have d: "0 \<le> k - (e - 52)" by simp
  define j where "j = nat (k - (e - 52))"
  have kj: "k = (e - 52) + int j" using d by (simp add: j_def)
  have "x / 2 powi (e - 52) = of_int n * 2 powi (int j)"
    unfolding x by (subst kj) (simp add: power_int_add)
  also have "\<dots> = of_int (n * 2 ^ j)" by (simp add: power_int_of_nat)
  finally have q: "x / 2 powi (e - 52) = of_int (n * 2 ^ j)" .
  have "round64 x = of_int (ties_even (x / 2 powi (e - 52))) * 2 powi (e - 52)"
    using False by (simp add: round64_def e_def)
  also have "\<dots> = of_int (n * 2 ^ j) * 2 powi (e - 52)"
    unfolding q ties_even_of_int ..
  also have "\<dots> = x / 2 powi (e - 52) * 2 powi (e - 52)" unfolding q ..
  also have "\<dots> = x" by simp
  finally show ?thesis .
qed

lemma round64_of_int: "\<bar>n\<bar> < 2 ^ 53 \<Longrightarrow> round64 (of_int n) = of_int n"
  using round64_exact[of "of_int n" n 0] by simp

text \<open>Rounding a positive number does not cross a power of two.\<close>

lemma round64_pos_bounds:
  assumes "0 < x"
  shows "2 powi binade x \<le> round64 x" and "round64 x \<le> 2 powi (binade x + 1)"
proof -
  define e where "e = binade x"
  define u :: real where "u = 2 powi (e - 52)"
  have u: "0 < u" by (simp add: u_def)
  have x0: "x \<noteq> 0" using assms by simp
  have r: "round64 x = of_int (ties_even (x / u)) * u"
    using x0 by (simp add: round64_def e_def u_def)
  have lo: "2 powi e \<le> x" and hi: "x < 2 powi (e + 1)"
    using binade_bounds[OF x0] assms by (simp_all add: e_def)
  have a: "(2::real) powi e = 2 ^ 52 * u" by (simp add: u_def power_int_diff)
  have b: "(2::real) powi (e + 1) = 2 ^ 53 * u" by (simp add: u_def power_int_diff power_int_add)
  have "of_int (2 ^ 52) \<le> x / u" using lo u unfolding a by (simp add: pos_le_divide_eq)
  then have "2 ^ 52 \<le> ties_even (x / u)" by (rule ties_even_ge)
  then have "real_of_int (2 ^ 52) \<le> of_int (ties_even (x / u))" by (simp only: of_int_le_iff)
  then have "2 ^ 52 * u \<le> of_int (ties_even (x / u)) * u" using u by (simp)
  then show "2 powi binade x \<le> round64 x" unfolding r a e_def[symmetric] .
  have "x / u \<le> of_int (2 ^ 53)" using hi u unfolding b by (simp add: pos_divide_le_eq)
  then have "ties_even (x / u) \<le> 2 ^ 53" by (rule ties_even_le)
  then have "real_of_int (ties_even (x / u)) \<le> of_int (2 ^ 53)" by (simp only: of_int_le_iff)
  then have "of_int (ties_even (x / u)) * u \<le> 2 ^ 53 * u" using u by simp
  then show "round64 x \<le> 2 powi (binade x + 1)" unfolding r b e_def[symmetric] .
qed

lemma round64_ge_pow2: "2 powi k \<le> x \<Longrightarrow> 2 powi k \<le> round64 x"
proof -
  assume k: "2 powi k \<le> x"
  have "(0::real) < 2 powi k" by simp
  then have x: "0 < x" using k by linarith
  have "x < 2 powi (binade x + 1)" using binade_bounds(2)[of x] x by simp
  then have "(2::real) powi k < 2 powi (binade x + 1)" using k by linarith
  then have "k < binade x + 1" by (rule powi2_less_D)
  then have "k \<le> binade x" by simp
  then have "(2::real) powi k \<le> 2 powi binade x" by (simp add: power_int_increasing)
  then show ?thesis using round64_pos_bounds(1)[OF x] by linarith
qed

lemma round64_le_pow2: "0 < x \<Longrightarrow> x \<le> 2 powi k \<Longrightarrow> round64 x \<le> 2 powi k"
proof -
  assume x: "0 < x" and k: "x \<le> 2 powi k"
  have "2 powi binade x \<le> x" using binade_bounds(1)[of x] x by simp
  then have le: "(2::real) powi binade x \<le> 2 powi k" using k by linarith
  show ?thesis
  proof (cases "x = 2 powi k")
    case True
    have "round64 x = x" using round64_exact[of x 1 k] True by simp
    then show ?thesis using True by simp
  next
    case False
    then have "x < 2 powi k" using k by simp
    then have "(2::real) powi binade x < 2 powi k" using \<open>2 powi binade x \<le> x\<close> by linarith
    then have "binade x < k" by (rule powi2_less_D)
    then have "binade x + 1 \<le> k" by simp
    then have "(2::real) powi (binade x + 1) \<le> 2 powi k" by (simp add: power_int_increasing)
    then show ?thesis using round64_pos_bounds(2)[OF x] by linarith
  qed
qed


lemma round64_0: "round64 0 = 0"
  by (simp add: round64_def)

lemma round64_numeral: "(numeral w :: int) < 2 ^ 53 \<Longrightarrow> round64 (numeral w) = numeral w"
  using round64_of_int[of "numeral w"] by simp

lemma tolerance_bounds: "2 powi (- 47) \<le> round64 (1 / 10 ^ 14)" "round64 (1 / 10 ^ 14) \<le> 2 powi (- 46)"
proof -
  show "2 powi (- 47) \<le> round64 (1 / 10 ^ 14)" by (rule round64_ge_pow2) simp
  show "round64 (1 / 10 ^ 14) \<le> 2 powi (- 46)" by (rule round64_le_pow2) simp_all
qed

lemma float_5001: "round64 (5001 / 1000) = 5630625434119963 / 1125899906842624"
proof -
  have b: "binade (5001 / 1000) = 2" by (rule binade_eqI) simp_all
  have t: "ties_even (703828179264995328 / 125) = 5630625434119963"
    by (simp add: ties_even_def Let_def)
  show ?thesis by (simp add: round64_def b t)
qed

text \<open>A sum that needs 54 bits loses its last bit: \<open>2^53 + 1\<close> is rounded to \<open>2^53\<close>.\<close>

lemma round64_tie: "round64 (9007199254740992 + 1) = 9007199254740992"
proof -
  have b: "binade 9007199254740993 = 53" by (rule binade_eqI) simp_all
  have t: "ties_even (9007199254740993 / 2) = 4503599627370496"
    by (simp add: ties_even_def Let_def)
  show ?thesis by (simp add: round64_def b t)
qed

subsection \<open>\<^verbatim>\<open>DensityVolumeInfo.__call__\<close>\<close>

lemma dvi_loop_sums:
  "list_all (region_known vf conf) rtm \<Longrightarrow>
   \<exists>avg' vols dens. dvi_loop rtm vf conf (avg, tot, vols0, dens0) =
     Inr (avg', foldl (\<lambda>tot r. round64 (tot + region_volume vf r)) tot rtm, vols, dens)"
proof (induction rtm arbitrary: avg tot vols0 dens0)
  case Nil show ?case by simp
next
  case (Cons r rtm)
  obtain rn mn itn where r: "r = (rn, mn, itn)" by (cases r)
  obtain vol den where v: "vf (volume_key rn) = Some vol" and d: "conf mn itn = Some den"
    using Cons.prems by (auto simp: r region_known_def)
  have "list_all (region_known vf conf) rtm" using Cons.prems by simp
  from Cons.IH[OF this, of "round64 (avg + round64 (vol * den))" "round64 (tot + vol)"
      "vols0(rn \<mapsto> vol)" "dens0(rn \<mapsto> den)"]
  obtain avg' vols dens where
    e: "dvi_loop rtm vf conf (round64 (avg + round64 (vol * den)), round64 (tot + vol),
            vols0(rn \<mapsto> vol), dens0(rn \<mapsto> den))
          = Inr (avg', foldl (\<lambda>tot r. round64 (tot + region_volume vf r)) (round64 (tot + vol)) rtm,
                 vols, dens)"
    by blast
  have "dvi_loop (r # rtm) vf conf (avg, tot, vols0, dens0)
          = Inr (avg', foldl (\<lambda>tot r. round64 (tot + region_volume vf r)) tot (r # rtm), vols, dens)"
    unfolding r using e v d by (simp add: region_volume_def)
  then show ?case by blast
qed

lemma dvi_loop_error:
  "\<not> list_all (region_known vf conf) rtm \<Longrightarrow>
   dvi_loop rtm vf conf st = Inl KeyError \<or> dvi_loop rtm vf conf st = Inl ConfigurationError"
proof (induction rtm arbitrary: st)
  case Nil then show ?case by simp
next
  case (Cons r rtm)
  obtain rn mn itn where r: "r = (rn, mn, itn)" by (cases r)
  obtain avg tot vols dens where st: "st = (avg, tot, vols, dens)" by (cases st)
  show ?case
  proof (cases "region_known vf conf r")
    case True
    then have "\<not> list_all (region_known vf conf) rtm" using Cons.prems by simp
    from Cons.IH[OF this, of "(round64 (avg + round64 (the (vf (volume_key rn)) * the (conf mn itn))),
         round64 (tot + the (vf (volume_key rn))), vols(rn \<mapsto> the (vf (volume_key rn))),
         dens(rn \<mapsto> the (conf mn itn)))"] True show ?thesis
      by (auto simp: r st region_known_def)
  next
    case False
    then show ?thesis by (auto simp: r st region_known_def split: option.splits)
  qed
qed

lemma example_loop:
  "dvi_loop example_regions example_volumes example_conf (0, 0, Map.empty, Map.empty) =
     Inr (80, 5, [''A'' \<mapsto> 2, ''B'' \<mapsto> 3], [''A'' \<mapsto> 10, ''B'' \<mapsto> 20])"
  by (simp add: example_regions_def example_volumes_def example_conf_def volume_key_def
      round64_numeral)

lemma example_5001_deviation:
  "\<not> round64 (\<bar>round64 (5 - round64 (5001 / 1000))\<bar> / round64 (5001 / 1000)) < round64 (1 / 10 ^ 14)"
proof -
  have d: "round64 (5 - 5630625434119963 / 1125899906842624) = - (1125899906843 / 1125899906842624)"
    using round64_exact[of "- (1125899906843 / 1125899906842624)" "- 1125899906843" "- 50"]
    by simp
  have "2 powi (- 13) \<le> round64 (\<bar>round64 (5 - round64 (5001 / 1000))\<bar> / round64 (5001 / 1000))"
    unfolding float_5001 d by (rule round64_ge_pow2) simp
  moreover have "(2::real) powi (- 46) < 2 powi (- 13)" by simp
  ultimately show ?thesis using tolerance_bounds(2) by linarith
qed

text \<open>
  Claim C9, as the code has it. For a supplied total volume that is not negative,
  the call fails with the consistency error exactly when every region's volume and
  density are found and either the supplied total is zero or the relative deviation
  of the accumulated total volume from the supplied one is not strictly below
  \<open>1e-14\<close>: a deviation of exactly \<open>1e-14\<close> fails too. The total is accumulated and
  the deviation is computed in float64. With the regions of the example, the
  supplied total 5.001 (the float64 number nearest to it) fails, and the supplied
  total 5 gives the average density 16 and the total volume 5.
\<close>

theorem density_volume_info_consistency:
  assumes "0 \<le> true_volume"
  shows "(DensityVolumeInfo_call rtm vf conf true_volume = Inl (ValueError ''assertion failed!'')
            \<longleftrightarrow> list_all (region_known vf conf) rtm
               \<and> (true_volume = 0
                  \<or> \<not> relative_deviation (accumulated_volume vf rtm) true_volume
                        < round64 (1 / 10 ^ 14)))
       \<and> DensityVolumeInfo_call example_regions example_volumes example_conf (round64 (5001 / 1000))
            = Inl (ValueError ''assertion failed!'')
       \<and> (\<exists>r. DensityVolumeInfo_call example_regions example_volumes example_conf 5 = Inr r
              \<and> average_density r = 16 \<and> total_volume r = 5)"
proof (intro conjI)
  show "DensityVolumeInfo_call rtm vf conf true_volume = Inl (ValueError ''assertion failed!'')
     \<longleftrightarrow> list_all (region_known vf conf) rtm
         \<and> (true_volume = 0
            \<or> \<not> relative_deviation (accumulated_volume vf rtm) true_volume < round64 (1 / 10 ^ 14))"
  proof (cases "list_all (region_known vf conf) rtm")
    case True
    from dvi_loop_sums[OF True, of 0 0 Map.empty Map.empty]
    obtain avg' vols dens where
      "dvi_loop rtm vf conf (0, 0, Map.empty, Map.empty) =
         Inr (avg', accumulated_volume vf rtm, vols, dens)"
      unfolding accumulated_volume_def by auto
    moreover have "\<bar>true_volume\<bar> = true_volume" using assms by simp
    ultimately show ?thesis using True
      by (simp add: DensityVolumeInfo_call_def relative_deviation_def)
  next
    case False
    from dvi_loop_error[OF False, of "(0, 0, Map.empty, Map.empty)"] False
    show ?thesis by (auto simp: DensityVolumeInfo_call_def)
  qed
next
  have "round64 (5001 / 1000) \<noteq> 0" unfolding float_5001 by simp
  then show "DensityVolumeInfo_call example_regions example_volumes example_conf (round64 (5001 / 1000))
          = Inl (ValueError ''assertion failed!'')"
    using example_5001_deviation by (simp add: DensityVolumeInfo_call_def example_loop)
next
  have "(0::real) < 2 powi (- 47)" by simp
  then have "0 < round64 (1 / 10 ^ 14)" using tolerance_bounds(1) by linarith
  then show "\<exists>r. DensityVolumeInfo_call example_regions example_volumes example_conf 5 = Inr r
              \<and> average_density r = 16 \<and> total_volume r = 5"
    by (simp add: DensityVolumeInfo_call_def example_loop round64_0 round64_numeral)
qed

theorem density_volume_info_consistency_witness:
  "(0 :: real) \<le> 5
   \<and> DensityVolumeInfo_call example_regions example_volumes example_conf 5
        \<noteq> Inl (ValueError ''assertion failed!'')
   \<and> relative_deviation (accumulated_volume example_volumes example_regions) 5
        < round64 (1 / 10 ^ 14)"
proof -
  have a: "(0 :: real) \<le> 5" by simp
  note t = density_volume_info_consistency[OF a, of example_regions example_volumes example_conf]
  from t obtain r where
    "DensityVolumeInfo_call example_regions example_volumes example_conf 5 = Inr r" by blast
  then have n: "DensityVolumeInfo_call example_regions example_volumes example_conf 5
                  \<noteq> Inl (ValueError ''assertion failed!'')" by simp
  have k: "list_all (region_known example_volumes example_conf) example_regions"
    by (simp add: example_regions_def example_volumes_def example_conf_def region_known_def
        volume_key_def)
  from t n k have "relative_deviation (accumulated_volume example_volumes example_regions) 5
        < round64 (1 / 10 ^ 14)" by simp
  then show ?thesis using a n by simp
qed

text \<open>
  The claim as stated, with "by more than \<open>1e-14\<close>", fails on the boundary: one region
  of volume \<open>5^14 + 2^-14 = 100000000000001 / 16384\<close> against the supplied total
  \<open>5^14 = 6103515625\<close> (both are float64 numbers, and so is their difference)
  deviates by exactly \<open>1e-14\<close>, not more, and the call fails: the quotient is
  rounded to the same float64 number as the literal \<open>1e-14\<close>, which is not strictly
  below itself.
\<close>

theorem density_volume_info_boundary_counterexample:
  "DensityVolumeInfo_call [(''A'', ''solid'', ''density'')]
       [''volume_A'' \<mapsto> 100000000000001 / 16384] example_conf 6103515625
     = Inl (ValueError ''assertion failed!'')
   \<and> round64 (100000000000001 / 16384) = 100000000000001 / 16384
   \<and> \<not> (\<bar>100000000000001 / 16384 - 6103515625\<bar> / 6103515625 > (1 / 10 ^ 14 :: real))"
proof -
  have v: "round64 (100000000000001 / 16384) = 100000000000001 / 16384"
    using round64_exact[of "100000000000001 / 16384" 100000000000001 "- 14"] by simp
  have d: "round64 (1 / 16384) = 1 / 16384"
    using round64_exact[of "1 / 16384" 1 "- 14"] by simp
  have "\<exists>avg. dvi_loop [(''A'', ''solid'', ''density'')]
       [''volume_A'' \<mapsto> 100000000000001 / 16384] example_conf (0, 0, Map.empty, Map.empty)
     = Inr (avg, 100000000000001 / 16384, [''A'' \<mapsto> 100000000000001 / 16384], [''A'' \<mapsto> 10])"
    by (simp add: example_conf_def volume_key_def v)
  then obtain avg where l: "dvi_loop [(''A'', ''solid'', ''density'')]
       [''volume_A'' \<mapsto> 100000000000001 / 16384] example_conf (0, 0, Map.empty, Map.empty)
     = Inr (avg, 100000000000001 / 16384, [''A'' \<mapsto> 100000000000001 / 16384], [''A'' \<mapsto> 10])"
    by blast
  have "DensityVolumeInfo_call [(''A'', ''solid'', ''density'')]
       [''volume_A'' \<mapsto> 100000000000001 / 16384] example_conf 6103515625
     = Inl (ValueError ''assertion failed!'')"
    unfolding DensityVolumeInfo_call_def l by (simp add: d)
  then show ?thesis using v by simp
qed

subsection \<open>\<^verbatim>\<open>Eigenmomenta.__call__\<close>: thresholding\<close>

text \<open>
  Claim C8. For eigenmomenta whose rows have the L2 norms 0.01, 5.0 and 0.02, under
  the relative threshold 0.1, the validity mask is \<open>[False, True, False]\<close>, the rows
  0 and 2 are set to zero (row 1 is kept), and two rows are counted as zeroed.
\<close>

theorem eigenmomenta_threshold_example:
  assumes "norm_l2_along_axis em = [1 / 100, 5, 2 / 100]"
  shows "\<exists>r. Eigenmomenta_call (1 / 10) True em = Inr r
          \<and> valid r = [False, True, False] \<and> n_zeroed r = 2
          \<and> eigenmomenta r ! 0 = replicate (length (em ! 0)) 0
          \<and> eigenmomenta r ! 1 = em ! 1
          \<and> eigenmomenta r ! 2 = replicate (length (em ! 2)) 0"
proof -
  have len: "length em = 3"
    using assms by (metis length_map norm_l2_along_axis_def length_Cons list.size(3) numeral_3_eq_3)
  have up: "[0..<3] = [0, 1, 2]" by (simp add: upt_rec)
  obtain a b c where em: "em = [a, b, c]"
    using len by (auto simp: length_Suc_conv numeral_3_eq_3)
  show ?thesis using assms unfolding em
    by (simp add: Eigenmomenta_call_def Let_def zero_rows_def up)
qed

theorem eigenmomenta_threshold_example_witness:
  "norm_l2_along_axis [[1 / 100, 0], [3, 4], [0, 2 / 100]] = [1 / 100, 5, 2 / 100]
   \<and> (\<exists>r. Eigenmomenta_call (1 / 10) True [[1 / 100, 0], [3, 4], [0, 2 / 100]] = Inr r
          \<and> valid r = [False, True, False] \<and> n_zeroed r = 2
          \<and> eigenmomenta r = [[0, 0], [3, 4], [0, 0]])"
proof -
  have a: "sqrt (1 / 10000) = 1 / 100"
    by (rule real_sqrt_unique) (simp_all add: power2_eq_square)
  have b: "sqrt 25 = 5" by (rule real_sqrt_unique) simp_all
  have c: "sqrt (1 / 2500) = 1 / 50"
    by (rule real_sqrt_unique) (simp_all add: power2_eq_square)
  have h: "norm_l2_along_axis [[1 / 100, 0], [3, 4], [0, 2 / 100]] = [1 / 100, 5, 2 / 100]"
    by (simp add: norm_l2_along_axis_def a b c)
  from eigenmomenta_threshold_example[OF h] obtain r where
    r: "Eigenmomenta_call (1 / 10) True [[1 / 100, 0], [3, 4], [0, 2 / 100]] = Inr r"
      "valid r = [False, True, False]" "n_zeroed r = 2"
      "eigenmomenta r ! 0 = replicate (length ([[1 / 100, 0], [3, 4], [0, 2 / 100 :: real]] ! 0)) 0"
      "eigenmomenta r ! 1 = [[1 / 100, 0], [3, 4], [0, 2 / 100]] ! 1"
      "eigenmomenta r ! 2 = replicate (length ([[1 / 100, 0], [3, 4], [0, 2 / 100 :: real]] ! 2)) 0"
    by blast
  have "length (eigenmomenta r) = 3"
    using r(1) h by (auto simp: Eigenmomenta_call_def Let_def zero_rows_def)
  then obtain x y z where xyz: "eigenmomenta r = [x, y, z]"
    by (auto simp: length_Suc_conv numeral_3_eq_3)
  have "eigenmomenta r = [[0, 0], [3, 4], [0, 0]]"
    using r(4-6) unfolding xyz by (simp add: numeral_2_eq_2)
  then show ?thesis using h r(1-3) by blast
qed

subsection \<open>\<^verbatim>\<open>AcousticMassTensor.evaluate\<close>\<close>

lemma fmul_commute: "fmul a b = fmul b a"
  by (cases a; cases b) (auto simp: mult.commute)

lemma fadd_zero_left: "fadd (Fin 0) a = a"
  by (cases a) auto

lemma square_mat_row: "square_mat n m \<Longrightarrow> i < n \<Longrightarrow> length (m ! i) = n"
  by (simp add: square_mat_def list_all_length)

lemma square_mat_set: "square_mat n m \<Longrightarrow> square_mat n (mat_set m i j v)"
  by (cases "i < length m")
     (auto simp: square_mat_def mat_set_def list_all_length nth_list_update)

lemma mat_set_nth:
  "square_mat n m \<Longrightarrow> a < n \<Longrightarrow> b < n \<Longrightarrow>
   mat_set m i j v ! a ! b = (if a = i \<and> b = j then v else m ! a ! b)"
  by (cases "i < length m")
     (auto simp: square_mat_def mat_set_def list_all_length nth_list_update)

lemma inner_loop:
  assumes sq: "square_mat n fm" and ir: "ir < n"
  shows "c \<le> n \<Longrightarrow>
     square_mat n (foldl (fmass_step num denom ema ir) fm [0..<c]) \<and>
     (\<forall>i<n. \<forall>j<n. foldl (fmass_step num denom ema ir) fm [0..<c] ! i ! j =
        (if i = ir \<and> j < c
         then (if ir \<le> j then fadd (fm ! ir ! j) (mode_sum num denom ema ir j) else fm ! j ! ir)
         else fm ! i ! j))"
proof (induction c)
  case 0 then show ?case using sq by simp
next
  case (Suc c)
  define R where "R = foldl (fmass_step num denom ema ir) fm [0..<c]"
  have c: "c < n" using Suc.prems by simp
  have IH: "square_mat n R"
    "\<And>i j. i < n \<Longrightarrow> j < n \<Longrightarrow> R ! i ! j =
        (if i = ir \<and> j < c
         then (if ir \<le> j then fadd (fm ! ir ! j) (mode_sum num denom ema ir j) else fm ! j ! ir)
         else fm ! i ! j)"
    using Suc.IH c by (auto simp: R_def)
  have step: "foldl (fmass_step num denom ema ir) fm [0..<Suc c] = fmass_step num denom ema ir R c"
    by (simp add: R_def)
  show ?case
  proof (intro conjI allI impI)
    show "square_mat n (foldl (fmass_step num denom ema ir) fm [0..<Suc c])"
      unfolding step using IH(1) by (simp add: fmass_step_def square_mat_set)
  next
    fix i j assume i: "i < n" and j: "j < n"
    show "foldl (fmass_step num denom ema ir) fm [0..<Suc c] ! i ! j =
        (if i = ir \<and> j < Suc c
         then (if ir \<le> j then fadd (fm ! ir ! j) (mode_sum num denom ema ir j) else fm ! j ! ir)
         else fm ! i ! j)"
      unfolding step fmass_step_def
      using IH(2)[OF i j] IH(2)[OF ir c] IH(2)[OF c ir] i j c ir
      by (auto simp: mat_set_nth[OF IH(1)] less_Suc_eq)
  qed
qed

lemma outer_loop:
  "r \<le> n \<Longrightarrow>
     square_mat n (foldl (\<lambda>fmass ir. foldl (fmass_step num denom ema ir) fmass [0..<n])
                     (replicate n (replicate n (Fin 0))) [0..<r]) \<and>
     (\<forall>i<n. \<forall>j<n.
        foldl (\<lambda>fmass ir. foldl (fmass_step num denom ema ir) fmass [0..<n])
              (replicate n (replicate n (Fin 0))) [0..<r] ! i ! j =
        (if i < r then fmass_final num denom ema i j else Fin 0))"
proof (induction r)
  case 0 then show ?case by (simp add: square_mat_def list_all_length)
next
  case (Suc r)
  let ?outer = "\<lambda>fmass ir. foldl (fmass_step num denom ema ir) fmass [0..<n]"
  define R where "R = foldl ?outer (replicate n (replicate n (Fin 0))) [0..<r]"
  have r: "r < n" using Suc.prems by simp
  have IH: "square_mat n R"
    "\<And>i j. i < n \<Longrightarrow> j < n \<Longrightarrow> R ! i ! j = (if i < r then fmass_final num denom ema i j else Fin 0)"
    using Suc.IH r by (auto simp: R_def)
  have step: "foldl ?outer (replicate n (replicate n (Fin 0))) [0..<Suc r]
                = foldl (fmass_step num denom ema r) R [0..<n]"
    by (simp add: R_def)
  from inner_loop[OF IH(1) r, of n num denom ema]
  have inner: "square_mat n (foldl (fmass_step num denom ema r) R [0..<n])"
    "\<And>i j. i < n \<Longrightarrow> j < n \<Longrightarrow> foldl (fmass_step num denom ema r) R [0..<n] ! i ! j =
        (if i = r \<and> j < n
         then (if r \<le> j then fadd (R ! r ! j) (mode_sum num denom ema r j) else R ! j ! r)
         else R ! i ! j)"
    by auto
  show ?case
  proof (intro conjI allI impI)
    show "square_mat n (foldl ?outer (replicate n (replicate n (Fin 0))) [0..<Suc r])"
      unfolding step by (rule inner(1))
  next
    fix i j assume i: "i < n" and j: "j < n"
    show "foldl ?outer (replicate n (replicate n (Fin 0))) [0..<Suc r] ! i ! j =
        (if i < Suc r then fmass_final num denom ema i j else Fin 0)"
      unfolding step
      using inner(2)[OF i j] IH(2)[OF i j] IH(2)[OF r j] IH(2)[OF j r] i j r
      by (auto simp: fmass_final_def fadd_zero_left less_Suc_eq)
  qed
qed

lemma fmass_loops_nth:
  "i < n \<Longrightarrow> j < n \<Longrightarrow> fmass_loops num denom ema n ! i ! j = fmass_final num denom ema i j"
  using outer_loop[of n n num denom ema] by (simp add: fmass_loops_def)

lemma mask_select_zip:
  "length xs = length ys \<Longrightarrow> length ys = length msk \<Longrightarrow>
   zip (mask_select xs msk) (mask_select ys msk) = mask_select (zip xs ys) msk"
  by (induction xs ys msk rule: list_induct3) (auto simp: mask_select_def)

lemma mask_select_length:
  "length xs = length ys \<Longrightarrow> length ys = length msk \<Longrightarrow>
   length (mask_select xs msk) = length (mask_select ys msk)"
  by (induction xs ys msk rule: list_induct3) (auto simp: mask_select_def)

lemma mode_sum_zip:
  "length es = length rows \<Longrightarrow>
   mode_sum num (map (\<lambda>e. fsub num e) es) rows ir ic =
     fsum (map (\<lambda>(eig, momentum). fmul (fdiv num (fsub num eig))
                  (fmul (momentum ! ir) (momentum ! ic))) (zip es rows))"
proof -
  assume "length es = length rows"
  then have "map2 fmul (map (\<lambda>d. fdiv num d) (map (\<lambda>e. fsub num e) es))
               (map2 fmul (column rows ir) (column rows ic)) =
             map (\<lambda>(eig, momentum). fmul (fdiv num (fsub num eig))
                  (fmul (momentum ! ir) (momentum ! ic))) (zip es rows)"
    by (induction es rows rule: list_induct2) (simp_all add: column_def)
  then show ?thesis by (simp add: mode_sum_def)
qed

lemma resonance_sum_commute: "resonance_sum freq modes ir ic = resonance_sum freq modes ic ir"
proof -
  have "(\<lambda>(eig, momentum :: fl list). fmul (fdiv (fmul freq freq) (fsub (fmul freq freq) eig))
                  (fmul (momentum ! ir) (momentum ! ic)))
      = (\<lambda>(eig, momentum). fmul (fdiv (fmul freq freq) (fsub (fmul freq freq) eig))
                  (fmul (momentum ! ic) (momentum ! ir)))"
    by (intro ext) (simp add: fmul_commute split: prod.splits)
  then show ?thesis unfolding resonance_sum_def by (rule arg_cong)
qed

text \<open>
  Claim C1. For a tensor built by \<open>AcousticMassTensor_call\<close> and a frequency at
  which every denominator is finite, \<open>evaluate\<close> returns an \<open>n_c \<times> n_c\<close> matrix
  whose entry \<open>(ir, ic)\<close> is that of \<open>average_density * I - F / total_volume\<close>,
  with \<open>F[ir][ic]\<close> the sum over the valid modes only, and the matrix is symmetric.
\<close>

theorem evaluate_symmetric_formula:
  assumes call: "AcousticMassTensor_call evp_eigs avg vol ema n_c vld = Inr mt"
    and shape: "list_all (\<lambda>row. length row = n_c) ema"
    and fin: "list_all isfinite (snd (get_coefs mt freq))"
  shows "\<exists>M. evaluate mt freq = Inr M \<and> square_mat n_c M
         \<and> (\<forall>ir<n_c. \<forall>ic<n_c.
               M ! ir ! ic = fsub (fmul (if ir = ic then Fin 1 else Fin 0) avg)
                              (fdiv (resonance_sum freq (valid_modes evp_eigs ema vld) ir ic) vol)
               \<and> M ! ir ! ic = M ! ic ! ir)"
proof -
  have len: "length vld = length evp_eigs" "length vld = length ema"
    using call by (auto simp: AcousticMassTensor_call_def split: if_splits)
  have mt: "mt_eigs mt = mask_select evp_eigs vld" "mt_eigenmomenta mt = mask_select ema vld"
    "mt_n_c mt = n_c" "mt_average_density mt = avg" "mt_total_volume mt = vol"
    using call by (auto simp: AcousticMassTensor_call_def split: if_splits)
  let ?f2 = "fmul freq freq"
  let ?denom = "map (\<lambda>e. fsub ?f2 e) (mt_eigs mt)"
  have coefs: "get_coefs mt freq = (?f2, ?denom)" by (simp add: get_coefs_def Let_def)
  have leq: "length (mask_select evp_eigs vld) = length (mask_select ema vld)"
    using mask_select_length[of evp_eigs ema vld] len by simp
  have ms: "mode_sum ?f2 ?denom (mt_eigenmomenta mt) i j
              = resonance_sum freq (valid_modes evp_eigs ema vld) i j" for i j
    unfolding mt using mode_sum_zip[OF leq, of ?f2 i j] mask_select_zip[of evp_eigs ema vld] len
    by (simp add: resonance_sum_def valid_modes_def)
  have fin_ent: "fmass_final ?f2 ?denom (mt_eigenmomenta mt) i j
              = resonance_sum freq (valid_modes evp_eigs ema vld) i j" for i j
    using ms resonance_sum_commute[of freq _ i j] by (simp add: fmass_final_def)
  define M where "M = map (\<lambda>ir. map (\<lambda>ic.
               fsub (fmul (if ir = ic then Fin 1 else Fin 0) avg)
                    (fdiv (fmass_loops ?f2 ?denom (mt_eigenmomenta mt) n_c ! ir ! ic) vol))
                 [0..<n_c]) [0..<n_c]"
  have ev: "evaluate mt freq = Inr M"
    using fin by (simp add: evaluate_def coefs mt(3-5) M_def)
  have sq: "square_mat n_c M" by (simp add: M_def square_mat_def list_all_length)
  have ent: "M ! ir ! ic = fsub (fmul (if ir = ic then Fin 1 else Fin 0) avg)
                              (fdiv (resonance_sum freq (valid_modes evp_eigs ema vld) ir ic) vol)"
    if "ir < n_c" "ic < n_c" for ir ic
    using that by (simp add: M_def fmass_loops_nth fin_ent)
  have sym: "M ! ir ! ic = M ! ic ! ir" if "ir < n_c" "ic < n_c" for ir ic
    using ent[OF that] ent[OF that(2,1)] resonance_sum_commute[of freq _ ir ic] by auto
  show ?thesis using ev sq ent sym by blast
qed


theorem evaluate_symmetric_formula_witness:
  "AcousticMassTensor_call [Fin 1, Fin 4] (Fin 1) (Fin 1) [[Fin 1, Fin 2], [Fin 3, Fin 4]] 2 [True, False]
     = Inr \<lparr>mt_eigs = [Fin 1], mt_eigenmomenta = [[Fin 1, Fin 2]], mt_n_c = 2,
             mt_average_density = Fin 1, mt_total_volume = Fin 1\<rparr>
   \<and> list_all isfinite (snd (get_coefs \<lparr>mt_eigs = [Fin 1], mt_eigenmomenta = [[Fin 1, Fin 2]], mt_n_c = 2,
             mt_average_density = Fin 1, mt_total_volume = Fin 1\<rparr> (Fin 3)))
   \<and> (\<exists>M. evaluate \<lparr>mt_eigs = [Fin 1], mt_eigenmomenta = [[Fin 1, Fin 2]], mt_n_c = 2,
             mt_average_density = Fin 1, mt_total_volume = Fin 1\<rparr> (Fin 3) = Inr M
          \<and> M ! 0 ! 1 = Fin (- 9 / 4) \<and> M ! 1 ! 0 = M ! 0 ! 1)"
proof -
  let ?mt = "\<lparr>mt_eigs = [Fin 1], mt_eigenmomenta = [[Fin 1, Fin 2]], mt_n_c = 2,
             mt_average_density = Fin 1, mt_total_volume = Fin 1\<rparr>"
  have c: "AcousticMassTensor_call [Fin 1, Fin 4] (Fin 1) (Fin 1) [[Fin 1, Fin 2], [Fin 3, Fin 4]] 2 [True, False] = Inr ?mt"
    by (simp add: AcousticMassTensor_call_def mask_select_def)
  have s: "list_all (\<lambda>row. length row = 2) [[Fin 1, Fin 2], [Fin 3, Fin 4]]" by simp
  have f: "list_all isfinite (snd (get_coefs ?mt (Fin 3)))"
    by (simp add: get_coefs_def fsub_def)
  from evaluate_symmetric_formula[OF c s f] obtain M where
    M: "evaluate ?mt (Fin 3) = Inr M"
    and ent: "\<forall>ir<2. \<forall>ic<2.
               M ! ir ! ic = fsub (fmul (if ir = ic then Fin 1 else Fin 0) (Fin 1))
                              (fdiv (resonance_sum (Fin 3) (valid_modes [Fin 1, Fin 4] [[Fin 1, Fin 2], [Fin 3, Fin 4]] [True, False]) ir ic) (Fin 1))
               \<and> M ! ir ! ic = M ! ic ! ir"
    by blast
  have "M ! 0 ! 1 = Fin (- 9 / 4)"
    using ent[rule_format, of 0 1]
    by (simp add: resonance_sum_def valid_modes_def mask_select_def fsum_def fsub_def)
  moreover have "M ! 1 ! 0 = M ! 0 ! 1"
  proof -
    have "(1::nat) < 2" "(0::nat) < 2" by simp_all
    from ent[rule_format, OF this] show ?thesis by (rule conjunct2)
  qed
  ultimately show ?thesis using c f M by blast
qed

text \<open>
  The error is raised exactly when some denominator is not finite.
\<close>

lemma evaluate_raises_iff:
  "(\<exists>e. evaluate mt freq = Inl e) \<longleftrightarrow> \<not> list_all isfinite (snd (get_coefs mt freq))"
  by (simp add: evaluate_def Let_def split: prod.splits)

text \<open>
  Claim C7. At a frequency that coincides with an eigenfrequency the denominator
  \<open>freq\<^sup>2 - eig\<close> is zero, which is finite: the check does not raise, the division
  gives an infinity, and the tensor that is returned holds it. Here the eigenvalue
  is 4 and the frequency 2, with one mode of momentum 1, density 1 and volume 1.
\<close>

theorem evaluate_at_resonance_returns_inf:
  "evaluate \<lparr>mt_eigs = [Fin 4], mt_eigenmomenta = [[Fin 1]], mt_n_c = 1,
              mt_average_density = Fin 1, mt_total_volume = Fin 1\<rparr> (Fin 2) = Inr [[NInf]]"
  by (simp add: evaluate_def get_coefs_def fsub_def fmass_loops_def
      fmass_step_def mat_set_def mode_sum_def column_def fsum_def)

subsection \<open>\<^verbatim>\<open>split_chunks\<close> returns the maximal runs\<close>

lemma chunk_loop_acc: "chunk_loop indx ir ic0 acc = acc @ chunk_loop indx ir ic0 []"
proof (induction ir arbitrary: ic0 acc)
  case Nil show ?case by simp
next
  case (Cons ic ir)
  show ?case
    using Cons.IH[of "ic + 1" "acc @ [py_slice indx ic0 (ic + 1)]"]
          Cons.IH[of "ic + 1" "[py_slice indx ic0 (ic + 1)]"]
    by simp
qed

lemma chunk_loop_Cons:
  "chunk_loop indx (ic # ir) ic0 [] =
     py_slice indx ic0 (ic + 1) # chunk_loop indx ir (ic + 1) []"
  using chunk_loop_acc[of indx ir "ic + 1" "[py_slice indx ic0 (ic + 1)]"] by simp

lemma where_gt1_Cons:
  "where_gt1 (d # ds) = (if d > 1 then [0] else []) @ map Suc (where_gt1 ds)"
proof -
  have "[0..<length (d # ds)] = 0 # map Suc [0..<length ds]"
    by (simp add: upt_conv_Cons map_Suc_upt del: upt_Suc)
  then show ?thesis
    by (simp add: where_gt1_def filter_map comp_def)
qed

lemma wrap64_id: "- (2 ^ 63) \<le> d \<Longrightarrow> d < 2 ^ 63 \<Longrightarrow> wrap64 d = d"
  by (simp add: wrap64_def)

lemma ediff1d_Cons2: "ediff1d (x # y # zs) e = wrap64 (y - x) # ediff1d (y # zs) e"
  by (simp add: ediff1d_def)

lemma diffs_fit_Cons2:
  "diffs_fit (x # y # zs) \<longleftrightarrow> - (2 ^ 63) \<le> y - x \<and> y - x < 2 ^ 63 \<and> diffs_fit (y # zs)"
  by (simp add: diffs_fit_def)

lemma py_slice_Cons_Suc: "py_slice (x # xs) (Suc i) (Suc j) = py_slice xs i j"
  by (simp add: py_slice_def)

lemma py_slice_Cons_0: "py_slice (x # xs) 0 (Suc j) = x # py_slice xs 0 j"
  by (simp add: py_slice_def)

lemma chunk_loop_shift:
  "chunk_loop (x # xs) (map Suc ir) (Suc ic0) [] = chunk_loop xs ir ic0 []"
proof (induction ir arbitrary: ic0)
  case Nil show ?case by simp
next
  case (Cons ic ir)
  show ?case using Cons.IH[of "Suc ic"]
    by (simp add: chunk_loop_Cons py_slice_Cons_Suc del: chunk_loop.simps(2))
qed

lemma chunk_loop_front:
  "ir \<noteq> [] \<Longrightarrow> chunk_loop (x # xs) (map Suc ir) 0 [] =
     (x # hd (chunk_loop xs ir 0 [])) # tl (chunk_loop xs ir 0 [])"
proof (cases ir)
  case Nil then show "ir \<noteq> [] \<Longrightarrow> ?thesis" by simp
next
  case (Cons ic ir')
  then show ?thesis
    using chunk_loop_shift[of x xs ir' "Suc ic"]
    by (simp add: chunk_loop_Cons py_slice_Cons_0 del: chunk_loop.simps(2))
qed

lemma where_gt1_ediff1d_nonempty: "where_gt1 (ediff1d (x # xs) 2) \<noteq> []"
  by (induction xs arbitrary: x) (simp_all add: ediff1d_def where_gt1_Cons)

lemma split_chunks_runs: "diffs_fit xs \<Longrightarrow> split_chunks xs = runs xs"
proof (induction xs rule: runs.induct)
  case 1 show ?case by (simp add: split_chunks_def)
next
  case (2 x) show ?case
    by (simp add: split_chunks_def ediff1d_def where_gt1_def py_slice_def chunk_loop_Cons
        del: chunk_loop.simps(2))
next
  case (3 x y zs)
  have d: "wrap64 (y - x) = y - x" and f: "diffs_fit (y # zs)"
    using "3.prems" by (simp_all add: diffs_fit_Cons2 wrap64_id)
  have IH: "split_chunks (y # zs) = runs (y # zs)"
    using "3.IH"(1)[OF _ f] "3.IH"(2)[OF _ f] by (cases "1 < y - x") simp_all
  show ?case
    using IH where_gt1_ediff1d_nonempty[of y zs]
    by (simp add: split_chunks_def ediff1d_Cons2 d where_gt1_Cons chunk_loop_Cons
        py_slice_Cons_0 chunk_loop_shift chunk_loop_front py_slice_def
        del: chunk_loop.simps(2))
qed

lemma runs_Cons_ne: "runs (x # xs) \<noteq> []"
  by (cases xs) simp_all

lemma concat_runs: "concat (runs xs) = xs"
proof (induction xs rule: runs.induct)
  case (3 x y zs)
  have "concat (hd (runs (y # zs)) # tl (runs (y # zs))) = y # zs"
    using 3 runs_Cons_ne[of y zs] by (cases "1 < y - x") simp_all
  then show ?case using 3 by simp
qed simp_all

lemma hd_hd_runs: "hd (hd (runs (x # xs))) = x"
  by (cases xs) simp_all

lemma runs_chunk_props:
  "sorted_wrt (<) xs \<Longrightarrow> c \<in> set (runs xs) \<Longrightarrow> run_of xs c"
proof (induction xs arbitrary: c rule: runs.induct)
  case 1 then show ?case by simp
next
  case (2 x) then show ?case by (simp add: run_of_def)
next
  case (3 x y zs)
  let ?R = "runs (y # zs)"
  have xy: "x < y" and xz: "\<forall>z\<in>set zs. x < z" and yz: "\<forall>z\<in>set zs. y < z"
    and srt: "sorted_wrt (<) (y # zs)"
    using "3.prems"(1) by auto
  have Rne: "?R \<noteq> []" by (rule runs_Cons_ne)
  have cat: "concat ?R = y # zs" by (rule concat_runs)
  have IH: "run_of (y # zs) d" if "d \<in> set ?R" for d
    using "3.IH"(1)[OF _ srt that] "3.IH"(2)[OF _ srt that] by (cases "1 < y - x") simp_all
  have sub: "set d \<subseteq> set (y # zs)" if "d \<in> set ?R" for d
    using that cat by (metis UN_I set_concat subsetI)
  have ge: "y \<le> v" if "v \<in> set (y # zs)" for v using that yz by auto
  show ?case
  proof (cases "1 < y - x")
    case True
    then have "c = [x] \<or> c \<in> set ?R" using "3.prems"(2) by simp
    then show ?thesis
    proof
      assume "c = [x]"
      then show ?thesis using True xy xz yz by (auto simp: run_of_def)
    next
      assume cR: "c \<in> set ?R"
      have r: "run_of (y # zs) c" by (rule IH[OF cR])
      then have "hd c \<in> set c" "last c \<in> set c" by (auto simp: run_of_def)
      then have "y \<le> hd c" "y \<le> last c" using sub[OF cR] ge by auto
      then show ?thesis using r True by (auto simp: run_of_def)
    qed
  next
    case False
    then have yx: "y = x + 1" using xy by simp
    have c0R: "hd ?R \<in> set ?R" using Rne by simp
    have r0: "run_of (y # zs) (hd ?R)" by (rule IH[OF c0R])
    have hd0: "hd (hd ?R) = y" by (rule hd_hd_runs)
    have "c = x # hd ?R \<or> c \<in> set (tl ?R)" using "3.prems"(2) False by simp
    then show ?thesis
    proof
      assume c: "c = x # hd ?R"
      have ne0: "hd ?R \<noteq> []" using r0 by (simp add: run_of_def)
      have eq0: "hd ?R = [y..last (hd ?R)]" using r0 hd0 by (simp add: run_of_def)
      then have le: "y \<le> last (hd ?R)" using ne0 by (metis upto_Nil2 not_le)
      have "[x..last (hd ?R)] = x # [y..last (hd ?R)]"
        using le yx by (simp add: upto_rec1)
      then have "c = [hd c..last c]" using c eq0 ne0 by simp
      moreover have "last c + 1 \<notin> set (x # y # zs)"
        using c ne0 r0 le xy by (auto simp: run_of_def)
      moreover have "hd c - 1 \<notin> set (x # y # zs)"
        using c xy xz by auto
      moreover have "c \<noteq> []" using c by simp
      ultimately show ?thesis unfolding run_of_def by blast
    next
      assume ct: "c \<in> set (tl ?R)"
      then have cR: "c \<in> set ?R" using Rne by (meson list.set_sel(2))
      have r: "run_of (y # zs) c" by (rule IH[OF cR])
      then have hl: "hd c \<in> set c" "last c \<in> set c" by (auto simp: run_of_def)
      then have ges: "y \<le> hd c" "y \<le> last c" using sub[OF cR] ge by auto
      have "distinct (y # zs)" using srt yz by (auto simp: strict_sorted_iff)
      then have "distinct (concat (hd ?R # tl ?R))"
        using cat Rne by simp
      then have "set (hd ?R) \<inter> set c = {}" using ct by auto
      moreover have "y \<in> set (hd ?R)" using r0 hd0 by (metis hd_in_set run_of_def)
      ultimately have "hd c \<noteq> y" using hl by auto
      then show ?thesis using r ges xy yx by (auto simp: run_of_def)
    qed
  qed
qed

text \<open>
  Claim C10, as the code has it. For a strictly increasing vector of integers in
  which neighbouring entries differ by less than \<open>2^63\<close> (so that no int64 difference
  wraps), the chunks returned by \<open>split_chunks\<close> concatenate to the input (so they
  come in the input's order), and every chunk is a maximal run of consecutive
  integers of the input: it is not empty, it lists every integer from its first to
  its last entry, and neither the integer before its first entry nor the one after
  its last entry occurs in the input. The empty vector gives the empty list of
  chunks.
\<close>

theorem split_chunks_maximal_runs:
  assumes "sorted_wrt (<) indx" and "diffs_fit indx"
  shows "concat (split_chunks indx) = indx
       \<and> (\<forall>c \<in> set (split_chunks indx). run_of indx c)
       \<and> split_chunks [] = []"
proof -
  have e: "split_chunks indx = runs indx" using assms(2) by (rule split_chunks_runs)
  have "split_chunks [] = []" by (simp add: split_chunks_def)
  then show ?thesis using assms(1) runs_chunk_props[of indx] by (simp add: e concat_runs)
qed

theorem split_chunks_maximal_runs_witness:
  "sorted_wrt (<) [0, 1, 2, 5, 6, 9 :: int] \<and> diffs_fit [0, 1, 2, 5, 6, 9]
   \<and> concat (split_chunks [0, 1, 2, 5, 6, 9]) = [0, 1, 2, 5, 6, 9]
   \<and> split_chunks [] = []"
proof -
  have a: "sorted_wrt (<) [0, 1, 2, 5, 6, 9 :: int]" by simp
  have b: "diffs_fit [0, 1, 2, 5, 6, 9]" by (simp add: diffs_fit_def)
  show ?thesis using a b split_chunks_maximal_runs[OF a b] by blast
qed

text \<open>
  The claim as stated, for every strictly increasing vector, fails where a
  difference wraps: for the int64 entries \<open>-1\<close> and \<open>2^63 - 1\<close> the difference \<open>2^63\<close>
  wraps to \<open>-2^63\<close>, no split is made, and the one chunk returned is not a run of
  consecutive integers.
\<close>

theorem split_chunks_wrap_counterexample:
  "sorted_wrt (<) [- 1, 2 ^ 63 - 1 :: int]
   \<and> split_chunks [- 1, 2 ^ 63 - 1] = [[- 1, 2 ^ 63 - 1]]
   \<and> \<not> run_of [- 1, 2 ^ 63 - 1] [- 1, 2 ^ 63 - 1]"
proof -
  have "split_chunks [- 1, 2 ^ 63 - 1] = [[- 1, 2 ^ 63 - 1]]"
    by (simp add: split_chunks_def ediff1d_def wrap64_def where_gt1_def py_slice_def upt_rec)
  moreover have "\<not> run_of [- 1, 2 ^ 63 - 1] [- 1, 2 ^ 63 - 1]"
  proof
    assume "run_of [- 1, 2 ^ 63 - 1] [- 1, 2 ^ 63 - 1]"
    then have "[- 1, 2 ^ 63 - 1 :: int] = [- 1..2 ^ 63 - 1]" by (simp add: run_of_def)
    then have "set [- 1, 2 ^ 63 - 1 :: int] = set [- 1..2 ^ 63 - 1]" by simp
    then have "(0 :: int) \<in> set [- 1, 2 ^ 63 - 1 :: int]" by simp
    then show False by simp
  qed
  ultimately show ?thesis by simp
qed

subsection \<open>\<^verbatim>\<open>detect_band_gaps\<close>\<close>


























end
